theory Spec2Isabelle
  imports Complex_Main "HOL-Library.Word"
begin

section \<open>Strings of the source language\<close>

text \<open>
  A JavaScript string is a sequence of UTF-16 code units; \<open>length\<close>, \<open>slice\<close> and
  \<open>trim\<close> all work on code units. Literals of the source are written as HOL strings
  and converted with \<open>lit\<close>.
\<close>

type_synonym code_unit = "16 word"
type_synonym js_string = "code_unit list"

definition lit :: "string \<Rightarrow> js_string" where
  "lit cs = map of_char cs"

text \<open>
  \<open>String.prototype.slice(start, end)\<close> on integer arguments: a negative index
  counts from the end, both ends are clamped to the string, and an empty string results
  when the start is not before the end.
\<close>

definition slice :: "js_string \<Rightarrow> int \<Rightarrow> int \<Rightarrow> js_string" where
  "slice s start end =
     (let len = int (length s);
          from = (if start < 0 then max (len + start) 0 else min start len);
          to = (if end < 0 then max (len + end) 0 else min end len)
      in take (nat (to - from)) (drop (nat from) s))"

text \<open>
  \<open>String.prototype.trim()\<close> removes the WhiteSpace and LineTerminator code units of
  ECMAScript from both ends.
\<close>

definition isWhiteSpace :: "code_unit \<Rightarrow> bool" where
  "isWhiteSpace c \<longleftrightarrow>
     c = 0x0009 \<or> c = 0x000A \<or> c = 0x000B \<or> c = 0x000C \<or> c = 0x000D \<or> c = 0x0020 \<or>
     c = 0x00A0 \<or> c = 0x1680 \<or> (0x2000 \<le> c \<and> c \<le> 0x200A) \<or> c = 0x2028 \<or>
     c = 0x2029 \<or> c = 0x202F \<or> c = 0x205F \<or> c = 0x3000 \<or> c = 0xFEFF"

definition trim :: "js_string \<Rightarrow> js_string" where
  "trim s = rev (dropWhile isWhiteSpace (rev (dropWhile isWhiteSpace s)))"

text \<open>\<open>Array.prototype.join(sep)\<close> on an array of strings.\<close>

fun join :: "js_string \<Rightarrow> js_string list \<Rightarrow> js_string" where
  "join sep [] = []"
| "join sep [x] = x"
| "join sep (x # y # ys) = x @ sep @ join sep (y # ys)"

text \<open>
  The decimal rendering of a non-negative integer, as a template literal renders the
  number \<open>i + 1\<close>.
\<close>

definition digit :: "nat \<Rightarrow> code_unit" where
  "digit d = of_nat (48 + d)"

function numberToString :: "nat \<Rightarrow> js_string" where
  "numberToString n =
     (if n < 10 then [digit n] else numberToString (n div 10) @ [digit (n mod 10)])"
  by pat_completeness auto
termination
  by (relation "measure (\<lambda>n. n)") auto

declare numberToString.simps [simp del]

section \<open>The chunker\<close>

text \<open>
  \<^verbatim>\<open>
  function chunkText(s, chunkSize = 6000) {
    const chunks = [];
    for (let i = 0; i < s.length; i += chunkSize) {
      chunks.push(s.slice(i, i + chunkSize));
    }
    return chunks;
  }
  \<close>
  The loop index and the chunk size are integers. Nothing in the loop bounds the number
  of iterations, so the loop is a partial function: \<open>None\<close> is a run that never
  returns.
\<close>

partial_function (option) chunkLoop ::
  "js_string \<Rightarrow> int \<Rightarrow> int \<Rightarrow> js_string list \<Rightarrow> js_string list option" where
  "chunkLoop s chunkSize i chunks =
     (if i < int (length s)
      then chunkLoop s chunkSize (i + chunkSize) (chunks @ [slice s i (i + chunkSize)])
      else Some chunks)"

declare chunkLoop.simps [code]

definition chunkText :: "js_string \<Rightarrow> int \<Rightarrow> js_string list option" where
  "chunkText s chunkSize = chunkLoop s chunkSize 0 []"

text \<open>The default value of the parameter \<open>chunkSize\<close>.\<close>

definition chunkSize_default :: int where
  "chunkSize_default = 6000"

section \<open>The provider\<close>

text \<open>
  \<open>ai.models.generateContent({model, contents})\<close> is an external call. Its promise
  either rejects (with an error, kept as its message) or resolves to a response whose
  \<open>text\<close> property is a string or \<open>undefined\<close>. The provider is a parameter: a
  function of the request and of its own state \<open>'w\<close>. Every call is recorded, in the
  order of issue, with its result.
\<close>

datatype request = Request (model: js_string) (contents: js_string)

datatype response = Response (resp_text: "js_string option")

datatype error = ProviderError js_string | TypeError

type_synonym 'w provider = "request \<Rightarrow> 'w \<Rightarrow> (js_string + response) \<times> 'w"

record 'w io =
  world :: 'w
  calls :: "(request \<times> (js_string + response)) list"

definition generateContent ::
  "'w provider \<Rightarrow> request \<Rightarrow> 'w io \<Rightarrow> (js_string + response) \<times> 'w io" where
  "generateContent ai req st =
     (let (r, w') = ai req (world st)
      in (r, \<lparr>world = w', calls = calls st @ [(req, r)]\<rparr>))"

section \<open>The pipeline\<close>

definition gemini :: js_string where
  "gemini = lit ''gemini-2.5-flash''"

text \<open>The template literal of the prompt for the chunk at index \<open>i\<close>.\<close>

definition chunkPrompt :: "nat \<Rightarrow> js_string \<Rightarrow> js_string" where
  "chunkPrompt i chunk =
     lit ''\<newline>You are summarizing part '' @ numberToString (i + 1) @
     lit ''.\<newline>Write 5-8 bullet points covering major events, characters, emotions, clues:\<newline>\<newline>'' @
     chunk @ lit ''\<newline>''"

text \<open>The template literal of the synthesis prompt, around the joined summaries.\<close>

definition finalPrompt :: "js_string list \<Rightarrow> js_string" where
  "finalPrompt chunkSummaries =
     lit ''\<newline>Combine all summaries into a final chapter summary:\<newline>\<newline>'' @
     join (lit ''\<newline>'') chunkSummaries @ lit ''\<newline>    ''"

text \<open>
  The \<open>for\<close> loop of \<open>summarizeLongText\<close>: one awaited call per chunk; a rejected
  call throws out of the loop, and so does \<open>resp.text.trim()\<close> when \<open>text\<close> is
  undefined.
\<close>

function summarizeLoop ::
  "'w provider \<Rightarrow> js_string list \<Rightarrow> nat \<Rightarrow> js_string list \<Rightarrow> 'w io \<Rightarrow>
     (error + js_string list) \<times> 'w io" where
  "summarizeLoop ai chunks i chunkSummaries st =
     (if i < length chunks then
        (case generateContent ai (Request gemini (chunkPrompt i (chunks ! i))) st of
           (Inl msg, st') \<Rightarrow> (Inl (ProviderError msg), st')
         | (Inr resp, st') \<Rightarrow>
             (case resp_text resp of
                None \<Rightarrow> (Inl TypeError, st')
              | Some t \<Rightarrow> summarizeLoop ai chunks (i + 1) (chunkSummaries @ [trim t]) st'))
      else (Inr chunkSummaries, st))"
  by pat_completeness auto
termination
  by (relation "measure (\<lambda>(ai, chunks, i, chunkSummaries, st). length chunks - i)") auto

declare summarizeLoop.simps [simp del]

definition summarizeLongText ::
  "'w provider \<Rightarrow> js_string \<Rightarrow> 'w io \<Rightarrow> ((error + js_string) \<times> 'w io) option" where
  "summarizeLongText ai fullText st =
     (case chunkText fullText chunkSize_default of
        None \<Rightarrow> None
      | Some chunks \<Rightarrow>
          Some (case summarizeLoop ai chunks 0 [] st of
                  (Inl e, st1) \<Rightarrow> (Inl e, st1)
                | (Inr chunkSummaries, st1) \<Rightarrow>
                    (case generateContent ai (Request gemini (finalPrompt chunkSummaries)) st1 of
                       (Inl msg, st2) \<Rightarrow> (Inl (ProviderError msg), st2)
                     | (Inr finalResp, st2) \<Rightarrow>
                         (case resp_text finalResp of
                            None \<Rightarrow> (Inl TypeError, st2)
                          | Some t \<Rightarrow> (Inr (trim t), st2)))))"

text \<open>
  The route handler hands the extracted paragraphs to the pipeline as
  \<open>summarizeLongText(paragraphs.join('\n'))\<close>, with no test on the text.
\<close>

definition scrapeSummary ::
  "'w provider \<Rightarrow> js_string list \<Rightarrow> 'w io \<Rightarrow> ((error + js_string) \<times> 'w io) option" where
  "scrapeSummary ai paragraphs st = summarizeLongText ai (join (lit ''\<newline>'') paragraphs) st"

section \<open>Auxiliary notions for the statements\<close>

text \<open>The number of windows of width \<open>n\<close> needed to cover \<open>d\<close> positions.\<close>

definition chunkCount :: "nat \<Rightarrow> nat \<Rightarrow> nat" where
  "chunkCount n d = (d + (n - 1)) div n"

text \<open>
  Issuing a list of requests one after the other, each on the provider state left by the
  one before it.
\<close>

fun replay ::
  "'w provider \<Rightarrow> request list \<Rightarrow> 'w \<Rightarrow> (request \<times> (js_string + response)) list \<times> 'w" where
  "replay ai [] w = ([], w)"
| "replay ai (q # qs) w =
     (case ai q w of (r, w1) \<Rightarrow>
        (case replay ai qs w1 of (es, w2) \<Rightarrow> ((q, r) # es, w2)))"

text \<open>The request sent for the chunk at index \<open>i\<close>.\<close>

definition chunkCall :: "js_string list \<Rightarrow> nat \<Rightarrow> request" where
  "chunkCall chunks i = Request gemini (chunkPrompt i (chunks ! i))"

text \<open>
  What the awaiting code throws on the result of a call: the rejection itself, or a
  \<open>TypeError\<close> when the response has no text to trim.
\<close>

definition thrown :: "js_string + response \<Rightarrow> error option" where
  "thrown r =
     (case r of
        Inl msg \<Rightarrow> Some (ProviderError msg)
      | Inr resp \<Rightarrow> (case resp_text resp of None \<Rightarrow> Some TypeError | Some t \<Rightarrow> None))"

text \<open>The log entries of the chunk calls from index \<open>i\<close> on that were answered with the texts \<open>ts\<close>.\<close>

fun answers ::
  "js_string list \<Rightarrow> nat \<Rightarrow> js_string list \<Rightarrow> (request \<times> (js_string + response)) list" where
  "answers chunks i [] = []"
| "answers chunks i (t # ts) =
     (chunkCall chunks i, Inr (Response (Some t))) # answers chunks (i + 1) ts"

text \<open>
  Two providers that count their calls. Both answer the call number \<open>w\<close> with its
  decimal rendering between a blank and a line break; \<open>flaky\<close> rejects the call
  number 1.
\<close>

definition padded :: "nat \<Rightarrow> js_string" where
  "padded w = lit '' '' @ numberToString w @ lit ''\<newline>''"

definition counting :: "nat provider" where
  "counting req w = (Inr (Response (Some (padded w))), Suc w)"

definition flaky :: "nat provider" where
  "flaky req w = (if w = 1 then Inl (lit ''unavailable'') else Inr (Response (Some (padded w))), Suc w)"

definition started :: "nat io" where
  "started = \<lparr>world = 0, calls = []\<rparr>"

text \<open>Texts of one code unit more than one chunk and than two chunks.\<close>

definition two_chunks :: js_string where
  "two_chunks = replicate 6001 0x61"

definition three_chunks :: js_string where
  "three_chunks = replicate 12001 0x61"

text \<open>The states the providers leave after the runs on these texts and on the empty text.\<close>

definition counted_empty :: "nat io" where
  "counted_empty =
     \<lparr>world = 1,
      calls = [(Request gemini (finalPrompt []), Inr (Response (Some (padded 0))))]\<rparr>"

definition counted_two :: "nat io" where
  "counted_two =
     \<lparr>world = 3,
      calls = [(Request gemini (chunkPrompt 0 (replicate 6000 0x61)), Inr (Response (Some (padded 0)))),
               (Request gemini (chunkPrompt 1 [0x61]), Inr (Response (Some (padded 1)))),
               (Request gemini (finalPrompt [lit ''0'', lit ''1'']), Inr (Response (Some (padded 2))))]\<rparr>"

definition failed_three :: "nat io" where
  "failed_three =
     \<lparr>world = 2,
      calls = [(Request gemini (chunkPrompt 0 (replicate 6000 0x61)), Inr (Response (Some (padded 0)))),
               (Request gemini (chunkPrompt 1 (replicate 6000 0x61)), Inl (lit ''unavailable''))]\<rparr>"

section \<open>The chunker: closed form\<close>

lemma slice_window:
  assumes i: "0 \<le> i" and n: "0 < n"
  shows "slice s i (i + n) = take (nat n) (drop (nat i) s)"
proof (cases "i + n \<le> int (length s)")
  case True
  with i n have "nat (i + n - i) = nat n" by simp
  with True i n show ?thesis by (simp add: slice_def Let_def)
next
  case False
  with i n show ?thesis by (auto simp: slice_def Let_def min_def)
qed

lemma chunkCount_0: "0 < m \<Longrightarrow> chunkCount m 0 = 0"
  by (simp add: chunkCount_def)

lemma chunkCount_step:
  assumes "0 < m" "0 < d"
  shows "chunkCount m d = Suc (chunkCount m (d - m))"
proof (cases "d \<le> m")
  case True
  with assms have "(d + (m - 1)) div m = 1" by (simp add: div_nat_eqI)
  with True assms show ?thesis by (simp add: chunkCount_def)
next
  case False
  then have "d + (m - 1) = (d - m + (m - 1)) + m" by simp
  then have "chunkCount m d = ((d - m + (m - 1)) + m) div m"
    unfolding chunkCount_def by (rule arg_cong)
  also have "\<dots> = Suc ((d - m + (m - 1)) div m)"
    using assms(1) by (subst div_add_self2) simp_all
  finally show ?thesis by (simp only: chunkCount_def)
qed

lemma chunkCount_covers: "0 < m \<Longrightarrow> d \<le> chunkCount m d * m"
proof -
  assume m: "0 < m"
  have "d + (m - 1) = (d + (m - 1)) div m * m + (d + (m - 1)) mod m" by simp
  moreover have "(d + (m - 1)) mod m \<le> m - 1"
    using mod_less_divisor[OF m, of "d + (m - 1)"] by linarith
  ultimately show ?thesis unfolding chunkCount_def by linarith
qed

lemma chunkCount_tight: "0 < m \<Longrightarrow> chunkCount m d * m < d + m"
proof -
  assume m: "0 < m"
  have "(d + (m - 1)) div m * m \<le> d + (m - 1)" by simp
  with m show ?thesis unfolding chunkCount_def by linarith
qed

lemma chunkCount_ceiling:
  assumes "0 < n"
  shows "int (chunkCount (nat n) d) = \<lceil>real d / real_of_int n\<rceil>"
proof -
  let ?c = "chunkCount (nat n) d"
  have m: "0 < nat n" using assms by simp
  have rn: "0 < real_of_int n" using assms by simp
  have nn: "real (nat n) = real_of_int n" using assms by simp
  have "real d \<le> real (?c * nat n)"
    using chunkCount_covers[OF m, of d] by (simp only: of_nat_le_iff)
  then have up: "real d / real_of_int n \<le> real ?c"
    using rn nn by (simp add: pos_divide_le_eq)
  have "real (?c * nat n) < real (d + nat n)"
    using chunkCount_tight[OF m, of d] by (simp only: of_nat_less_iff)
  then have "(real ?c - 1) * real_of_int n < real d"
    using nn by (simp add: algebra_simps)
  then have lo: "real ?c - 1 < real d / real_of_int n"
    using rn by (simp add: pos_less_divide_eq)
  have "\<lceil>real d / real_of_int n\<rceil> = int ?c"
    unfolding ceiling_eq_iff using up lo by simp
  then show ?thesis by simp
qed

text \<open>
  The loop invariant: started at a non-negative index with a positive step, the loop
  returns, and appends one window per remaining step.
\<close>

lemma chunkLoop_closed:
  assumes n: "0 < n"
  shows "0 \<le> i \<Longrightarrow> chunkLoop s n i acc =
     Some (acc @ map (\<lambda>k. take (nat n) (drop (nat i + k * nat n) s))
                   [0 ..< chunkCount (nat n) (length s - nat i)])"
proof (induction "length s - nat i" arbitrary: i acc rule: less_induct)
  case less
  show ?case
  proof (cases "i < int (length s)")
    case False
    with less.prems have "length s - nat i = 0" by simp
    moreover have "chunkCount (nat n) 0 = 0" using n by (simp add: chunkCount_0)
    ultimately show ?thesis using False by (subst chunkLoop.simps) simp
  next
    case True
    let ?m = "nat n"
    have m: "0 < ?m" using n by simp
    have lt: "length s - nat (i + n) < length s - nat i"
      using True less.prems n by linarith
    have nn: "0 \<le> i + n" using less.prems n by simp
    have d: "length s - nat i > 0" using True less.prems by linarith
    have e: "nat (i + n) = nat i + ?m" using less.prems n by (simp add: nat_add_distrib)
    have cnt: "chunkCount ?m (length s - nat i) = Suc (chunkCount ?m (length s - nat (i + n)))"
    proof -
      have "length s - nat (i + n) = length s - nat i - ?m" unfolding e by simp
      with chunkCount_step[OF m d] show ?thesis by simp
    qed
    have "chunkLoop s n i acc = chunkLoop s n (i + n) (acc @ [slice s i (i + n)])"
      using True by (subst chunkLoop.simps) simp
    also have "\<dots> = Some ((acc @ [slice s i (i + n)]) @
        map (\<lambda>k. take ?m (drop (nat (i + n) + k * ?m) s))
          [0 ..< chunkCount ?m (length s - nat (i + n))])"
      by (rule less.hyps[OF lt nn])
    also have "\<dots> = Some (acc @ map (\<lambda>k. take ?m (drop (nat i + k * ?m) s))
          [0 ..< chunkCount ?m (length s - nat i)])"
      unfolding cnt using less.prems n
      by (simp add: slice_window map_upt_Suc e add.assoc del: upt_Suc)
    finally show ?thesis .
  qed
qed

lemma chunkText_closed:
  "0 < n \<Longrightarrow> chunkText s n =
     Some (map (\<lambda>k. take (nat n) (drop (k * nat n) s)) [0 ..< chunkCount (nat n) (length s)])"
  using chunkLoop_closed[of n 0 s "[]"] by (simp add: chunkText_def)

text \<open>With a step that does not advance, an index inside the string stays inside.\<close>

lemma chunkLoop_diverges:
  assumes "chunkLoop s chunkSize i chunks = Some y"
  shows "\<not> (chunkSize \<le> 0 \<and> i < int (length s))"
proof (rule chunkLoop.raw_induct[where P = "\<lambda>s chunkSize i chunks y. \<not> (chunkSize \<le> 0 \<and> i < int (length s))"])
  show "chunkLoop s chunkSize i chunks = Some y" by fact
next
  fix f s' c' i' ch' y'
  assume IH: "\<And>s c i ch y. f s c i ch = Some y \<Longrightarrow> \<not> (c \<le> 0 \<and> i < int (length s))"
    and eq: "(if i' < int (length s') then f s' c' (i' + c') (ch' @ [slice s' i' (i' + c')]) else Some ch') = Some y'"
  show "\<not> (c' \<le> 0 \<and> i' < int (length s'))"
  proof
    assume a: "c' \<le> 0 \<and> i' < int (length s')"
    with eq have "f s' c' (i' + c') (ch' @ [slice s' i' (i' + c')]) = Some y'" by simp
    from IH[OF this] a show False by linarith
  qed
qed

lemma concat_windows:
  "concat (map (\<lambda>k. take m (drop (k * m) s)) [0 ..< c]) = take (c * m) s"
proof (induction c)
  case 0
  show ?case by simp
next
  case (Suc c)
  have "take (c * m) s @ take m (drop (c * m) s) = take (c * m + m) s"
    by (simp add: take_add)
  moreover have "Suc c * m = c * m + m" by simp
  ultimately show ?case using Suc by (simp del: mult_Suc)
qed

lemma window_full:
  assumes m: "0 < m" and k: "Suc k < chunkCount m (length s)"
  shows "length (take m (drop (k * m) s)) = m"
proof -
  have "Suc (Suc k) * m \<le> chunkCount m (length s) * m"
    using k by (intro mult_le_mono1) simp
  with chunkCount_tight[OF m, of "length s"] have "Suc (Suc k) * m < length s + m" by linarith
  then have "k * m + m \<le> length s" by simp
  then show ?thesis by simp
qed

lemma window_last:
  assumes m: "0 < m" and d: "0 < length s"
  shows "length (take m (drop ((chunkCount m (length s) - 1) * m) s)) =
           (if length s mod m = 0 then m else length s mod m)"
proof -
  let ?c = "chunkCount m (length s)"
  let ?L = "length s"
  have c: "0 < ?c" using chunkCount_step[OF m d] by simp
  then have cm: "?c * m = (?c - 1) * m + m" by (cases ?c) simp_all
  have lo: "(?c - 1) * m < ?L" using chunkCount_tight[OF m, of ?L] cm by linarith
  have hi: "?L \<le> (?c - 1) * m + m" using chunkCount_covers[OF m, of ?L] cm by linarith
  define r where "r = ?L - (?c - 1) * m"
  have r: "0 < r" "r \<le> m" and L: "?L = (?c - 1) * m + r" using lo hi by (simp_all add: r_def)
  have len: "length (take m (drop ((?c - 1) * m) s)) = r" using r by (simp add: r_def)
  show ?thesis
  proof (cases "r = m")
    case True
    then have "?L mod m = 0" using L by (metis cm mod_mult_self2_is_0)
    with len True show ?thesis by simp
  next
    case False
    with r have "r < m" by simp
    then have "?L mod m = r" using L by (metis add.commute mod_less mod_mult_self4 mult.commute)
    with len r show ?thesis by simp
  qed
qed

section \<open>Claims about the chunker\<close>

text \<open>
  C2. Chunking is lossless: for every string and every positive chunk size, \<open>chunkText\<close>
  returns, and the chunks concatenated in index order are the string again.
\<close>

theorem chunkText_lossless:
  assumes "0 < chunkSize"
  shows "\<exists>chunks. chunkText s chunkSize = Some chunks \<and> concat chunks = s"
proof -
  let ?m = "nat chunkSize"
  have m: "0 < ?m" using assms by simp
  have "concat (map (\<lambda>k. take ?m (drop (k * ?m) s)) [0 ..< chunkCount ?m (length s)]) = s"
    using chunkCount_covers[OF m, of "length s"] by (simp add: concat_windows)
  with chunkText_closed[OF assms, of s] show ?thesis by simp
qed

theorem chunkText_lossless_witness:
  "(0::int) < 2 \<and> (\<exists>chunks. chunkText (lit ''hello'') 2 = Some chunks \<and> concat chunks = lit ''hello'')"
  using chunkText_lossless[of 2 "lit ''hello''"] by simp

text \<open>
  C6. Chunk count: for every string of length \<open>L\<close> and every positive chunk size,
  \<open>chunkText\<close> returns exactly \<open>ceil (L / chunkSize)\<close> chunks; for the empty string it
  returns no chunk at all.
\<close>

theorem chunkText_count:
  assumes "0 < chunkSize"
  shows "\<exists>chunks. chunkText s chunkSize = Some chunks \<and>
           int (length chunks) = \<lceil>real (length s) / real_of_int chunkSize\<rceil> \<and>
           (length s = 0 \<longrightarrow> chunks = [])"
proof -
  have "chunkCount (nat chunkSize) 0 = 0" using assms by (simp add: chunkCount_0)
  then show ?thesis
    using chunkText_closed[OF assms, of s] chunkCount_ceiling[OF assms, of "length s"]
    by auto
qed

theorem chunkText_count_witness:
  "(0::int) < 2 \<and> (\<exists>chunks. chunkText (lit ''hello'') 2 = Some chunks \<and>
      int (length chunks) = \<lceil>real (length (lit ''hello'')) / real_of_int 2\<rceil> \<and>
      (length (lit ''hello'') = 0 \<longrightarrow> chunks = []))"
  using chunkText_count[of 2 "lit ''hello''"] by simp

text \<open>
  C7. Chunk size bound: for a non-empty string and a positive chunk size, every chunk but
  the last has exactly \<open>chunkSize\<close> code units, and the last has \<open>L mod chunkSize\<close>, or
  \<open>chunkSize\<close> when \<open>chunkSize\<close> divides \<open>L\<close>.
\<close>

theorem chunkText_sizes:
  assumes "0 < chunkSize" and "0 < length s"
  shows "\<exists>chunks. chunkText s chunkSize = Some chunks \<and> chunks \<noteq> [] \<and>
           (\<forall>k. Suc k < length chunks \<longrightarrow> int (length (chunks ! k)) = chunkSize) \<and>
           int (length (last chunks)) =
             (if int (length s) mod chunkSize = 0 then chunkSize else int (length s) mod chunkSize)"
proof -
  let ?m = "nat chunkSize"
  let ?c = "chunkCount ?m (length s)"
  let ?w = "\<lambda>k. take ?m (drop (k * ?m) s)"
  let ?chunks = "map ?w [0 ..< ?c]"
  have m: "0 < ?m" using assms(1) by simp
  have c: "0 < ?c" using chunkCount_step[OF m assms(2)] by simp
  have ne: "?chunks \<noteq> []" using c by simp
  have full: "\<forall>k. Suc k < length ?chunks \<longrightarrow> int (length (?chunks ! k)) = chunkSize"
  proof (intro allI impI)
    fix k assume k: "Suc k < length ?chunks"
    then have "Suc k < ?c" by simp
    from window_full[OF m this] have "length (?w k) = ?m" .
    moreover have "?chunks ! k = ?w k" using k by simp
    ultimately show "int (length (?chunks ! k)) = chunkSize" using assms(1) by simp
  qed
  have "last ?chunks = ?w (?c - 1)" using c by (simp add: last_map last_upt)
  then have "length (last ?chunks) = (if length s mod ?m = 0 then ?m else length s mod ?m)"
    using window_last[OF m assms(2)] by simp
  moreover have "int (length s mod ?m) = int (length s) mod chunkSize"
    using assms(1) by (simp add: zmod_int)
  ultimately have lst: "int (length (last ?chunks)) =
      (if int (length s) mod chunkSize = 0 then chunkSize else int (length s) mod chunkSize)"
    using assms(1) by (auto split: if_splits)
  from chunkText_closed[OF assms(1), of s] ne full lst show ?thesis by blast
qed

theorem chunkText_sizes_witness:
  "(0::int) < 2 \<and> 0 < length (lit ''hello'') \<and>
   (\<exists>chunks. chunkText (lit ''hello'') 2 = Some chunks \<and> chunks \<noteq> [] \<and>
           (\<forall>k. Suc k < length chunks \<longrightarrow> int (length (chunks ! k)) = 2) \<and>
           int (length (last chunks)) = 1)"
  using chunkText_sizes[of 2 "lit ''hello''"] by (simp add: lit_def)

text \<open>
  C10. Termination of the chunker: with a positive chunk size \<open>chunkText\<close> returns for
  every string, since the index grows by the chunk size in each iteration. The
  precondition is needed: with a chunk size of zero or less the loop never leaves a
  non-empty string.
\<close>

theorem chunkText_terminates:
  "(0 < chunkSize \<longrightarrow> (\<exists>chunks. chunkText s chunkSize = Some chunks)) \<and>
   (chunkSize \<le> 0 \<and> s \<noteq> [] \<longrightarrow> chunkText s chunkSize = None)"
proof (intro conjI impI)
  assume "0 < chunkSize"
  from chunkText_closed[OF this, of s] show "\<exists>chunks. chunkText s chunkSize = Some chunks" by blast
next
  assume a: "chunkSize \<le> 0 \<and> s \<noteq> []"
  show "chunkText s chunkSize = None"
  proof (cases "chunkText s chunkSize")
    case None
    then show ?thesis .
  next
    case (Some y)
    then have "chunkLoop s chunkSize 0 [] = Some y" by (simp add: chunkText_def)
    from chunkLoop_diverges[OF this] a show ?thesis by simp
  qed
qed

theorem chunkText_terminates_witness:
  "(0::int) < 2 \<and> (\<exists>chunks. chunkText (lit ''hello'') 2 = Some chunks) \<and>
   (0::int) \<le> 0 \<and> lit ''hello'' \<noteq> [] \<and> chunkText (lit ''hello'') 0 = None"
  using chunkText_terminates[of 2 "lit ''hello''"] chunkText_terminates[of 0 "lit ''hello''"]
  by (simp add: lit_def)

section \<open>The pipeline: the log of a run\<close>

lemma length_answers: "length (answers chunks i ts) = length ts"
  by (induction ts arbitrary: i) simp_all

lemma nth_answers:
  "k < length ts \<Longrightarrow> answers chunks i ts ! k = (chunkCall chunks (i + k), Inr (Response (Some (ts ! k))))"
proof (induction ts arbitrary: i k)
  case Nil
  then show ?case by simp
next
  case (Cons t ts)
  show ?case
  proof (cases k)
    case 0
    then show ?thesis by simp
  next
    case (Suc j)
    with Cons.prems have "j < length ts" by simp
    from Cons.IH[OF this, of "i + 1"] Suc show ?thesis by simp
  qed
qed

lemma thrown_None: "thrown r = None \<longleftrightarrow> (\<exists>t. r = Inr (Response (Some t)))"
proof (cases r)
  case (Inl msg)
  then show ?thesis by (simp add: thrown_def)
next
  case (Inr resp)
  then show ?thesis by (cases resp) (auto simp: thrown_def split: option.splits)
qed

lemma thrown_Inl: "thrown (Inl msg) = Some (ProviderError msg)"
  by (simp add: thrown_def)

lemma generateContent_effect:
  assumes "generateContent ai req st = (r, st1)"
  shows "calls st1 = calls st @ [(req, r)]" and "ai req (world st) = (r, world st1)"
  using assms by (auto simp: generateContent_def Let_def split: prod.splits)

lemma summarizeLoop_done:
  "\<not> i < length chunks \<Longrightarrow> summarizeLoop ai chunks i acc st = (Inr acc, st)"
  by (subst summarizeLoop.simps) simp

lemma summarizeLoop_throw:
  assumes "i < length chunks" and "generateContent ai (chunkCall chunks i) st = (r1, st1)"
    and "thrown r1 = Some e"
  shows "summarizeLoop ai chunks i acc st = (Inl e, st1)"
  using assms
  by (subst summarizeLoop.simps)
     (auto simp: chunkCall_def thrown_def split: sum.splits option.splits)

lemma summarizeLoop_next:
  assumes "i < length chunks"
    and "generateContent ai (chunkCall chunks i) st = (Inr (Response (Some t)), st1)"
  shows "summarizeLoop ai chunks i acc st = summarizeLoop ai chunks (i + 1) (acc @ [trim t]) st1"
  using assms by (subst summarizeLoop.simps) (simp add: chunkCall_def)

lemma replay_append:
  assumes "replay ai qs w = (es, w1)" and "replay ai qs' w1 = (es', w2)"
  shows "replay ai (qs @ qs') w = (es @ es', w2)"
  using assms
proof (induction qs arbitrary: w es)
  case Nil
  then show ?case by simp
next
  case (Cons q qs)
  obtain r wa where a: "ai q w = (r, wa)" by (cases "ai q w")
  obtain es0 wb where b: "replay ai qs wa = (es0, wb)" by (cases "replay ai qs wa")
  from Cons.prems(1) a b have es: "es = (q, r) # es0" and w: "wb = w1" by simp_all
  from Cons.IH[OF b[unfolded w] Cons.prems(2)] a es show ?case by simp
qed

lemma replay_single: "ai q w = (r, w1) \<Longrightarrow> replay ai [q] w = ([(q, r)], w1)"
  by simp

lemma summarizeLoop_trace:
  assumes "i \<le> length chunks" and "summarizeLoop ai chunks i acc st = (r, st')"
  shows "\<exists>raws fin.
           calls st' = calls st @ answers chunks i raws @ fin \<and>
           replay ai (map fst (answers chunks i raws @ fin)) (world st) =
             (answers chunks i raws @ fin, world st') \<and>
           (case r of
              Inr sms \<Rightarrow> (fin = [] \<and> i + length raws = length chunks \<and> sms = acc @ map trim raws)
            | Inl e \<Rightarrow> (i + length raws < length chunks \<and>
                (\<exists>bad. fin = [(chunkCall chunks (i + length raws), bad)] \<and> thrown bad = Some e)))"
  using assms
proof (induction "length chunks - i" arbitrary: i acc st rule: less_induct)
  case less
  show ?case
  proof (cases "i < length chunks")
    case False
    with less.prems(2) have "r = Inr acc" "st' = st" by (simp_all add: summarizeLoop_done)
    moreover from False less.prems(1) have "i = length chunks" by simp
    ultimately show ?thesis
      by (intro exI[of _ "[]"]) simp
  next
    case True
    let ?q = "chunkCall chunks i"
    obtain r1 st1 where g: "generateContent ai ?q st = (r1, st1)"
      by (cases "generateContent ai ?q st")
    note eff = generateContent_effect[OF g]
    show ?thesis
    proof (cases "thrown r1")
      case (Some e)
      from summarizeLoop_throw[OF True g Some] less.prems(2)
      have "r = Inl e" "st' = st1" by simp_all
      with eff True Some show ?thesis
        by (intro exI[of _ "[]"] exI[of _ "[(?q, r1)]"]) simp
    next
      case None
      then obtain t where r1: "r1 = Inr (Response (Some t))" by (auto simp: thrown_None)
      from summarizeLoop_next[OF True g[unfolded r1]] less.prems(2)
      have run: "summarizeLoop ai chunks (i + 1) (acc @ [trim t]) st1 = (r, st')" by simp
      have lt: "length chunks - (i + 1) < length chunks - i" using True by simp
      have le: "i + 1 \<le> length chunks" using True by simp
      from less.hyps[OF lt le run] obtain raws fin where
        c: "calls st' = calls st1 @ answers chunks (i + 1) raws @ fin" and
        p: "replay ai (map fst (answers chunks (i + 1) raws @ fin)) (world st1) =
              (answers chunks (i + 1) raws @ fin, world st')" and
        k: "(case r of
              Inr sms \<Rightarrow> (fin = [] \<and> i + 1 + length raws = length chunks \<and>
                 sms = (acc @ [trim t]) @ map trim raws)
            | Inl e \<Rightarrow> (i + 1 + length raws < length chunks \<and>
                (\<exists>bad. fin = [(chunkCall chunks (i + 1 + length raws), bad)] \<and> thrown bad = Some e)))"
        by blast
      have c': "calls st' = calls st @ answers chunks i (t # raws) @ fin"
        using c eff(1) r1 by simp
      have p': "replay ai (map fst (answers chunks i (t # raws) @ fin)) (world st) =
              (answers chunks i (t # raws) @ fin, world st')"
        using p eff(2) r1 by simp
      have k': "(case r of
              Inr sms \<Rightarrow> (fin = [] \<and> i + length (t # raws) = length chunks \<and>
                 sms = acc @ map trim (t # raws))
            | Inl e \<Rightarrow> (i + length (t # raws) < length chunks \<and>
                (\<exists>bad. fin = [(chunkCall chunks (i + length (t # raws)), bad)] \<and> thrown bad = Some e)))"
        using k by (cases r) simp_all
      from c' p' k' show ?thesis by blast
    qed
  qed
qed

lemma chunkText_default_total: "\<exists>chunks. chunkText fullText chunkSize_default = Some chunks"
  using chunkText_closed[of chunkSize_default fullText] by (simp add: chunkSize_default_def)

lemma summarizeLongText_total: "\<exists>out. summarizeLongText ai fullText st = Some out"
  using chunkText_default_total[of fullText] by (auto simp: summarizeLongText_def)

lemma summarizeLongText_trace:
  assumes "summarizeLongText ai fullText st = Some (r, st')"
  shows "\<exists>chunks raws fin.
           chunkText fullText chunkSize_default = Some chunks \<and>
           calls st' = calls st @ answers chunks 0 raws @ fin \<and>
           replay ai (map fst (answers chunks 0 raws @ fin)) (world st) =
             (answers chunks 0 raws @ fin, world st') \<and>
           ((length raws < length chunks \<and>
               (\<exists>bad e. fin = [(chunkCall chunks (length raws), bad)] \<and>
                   thrown bad = Some e \<and> r = Inl e)) \<or>
            (length raws = length chunks \<and>
               (\<exists>res. fin = [(Request gemini (finalPrompt (map trim raws)), res)] \<and>
                  ((\<exists>e. thrown res = Some e \<and> r = Inl e) \<or>
                   (\<exists>t. res = Inr (Response (Some t)) \<and> r = Inr (trim t))))))"
proof -
  obtain chunks where ch: "chunkText fullText chunkSize_default = Some chunks"
    using chunkText_default_total by blast
  obtain r0 st0 where l: "summarizeLoop ai chunks 0 [] st = (r0, st0)"
    by (cases "summarizeLoop ai chunks 0 [] st")
  from summarizeLoop_trace[OF _ l] obtain raws fin where
    c: "calls st0 = calls st @ answers chunks 0 raws @ fin" and
    p: "replay ai (map fst (answers chunks 0 raws @ fin)) (world st) =
          (answers chunks 0 raws @ fin, world st0)" and
    k: "(case r0 of
           Inr sms \<Rightarrow> (fin = [] \<and> 0 + length raws = length chunks \<and> sms = [] @ map trim raws)
         | Inl e \<Rightarrow> (0 + length raws < length chunks \<and>
             (\<exists>bad. fin = [(chunkCall chunks (0 + length raws), bad)] \<and> thrown bad = Some e)))"
    by blast
  show ?thesis
  proof (cases r0)
    case (Inl e)
    with assms ch l have "r = Inl e" "st' = st0" by (simp_all add: summarizeLongText_def)
    with c p k Inl ch show ?thesis by auto
  next
    case (Inr sms)
    with k have fin: "fin = []" and n: "length raws = length chunks" and s: "sms = map trim raws"
      by simp_all
    let ?q = "Request gemini (finalPrompt sms)"
    obtain res st2 where g: "generateContent ai ?q st0 = (res, st2)"
      by (cases "generateContent ai ?q st0")
    note eff = generateContent_effect[OF g]
    have st2: "st' = st2" and r: "r = (case thrown res of Some e \<Rightarrow> Inl e | None \<Rightarrow> Inr (trim (the (resp_text (projr res)))))"
      using assms ch l Inr g
      by (auto simp: summarizeLongText_def thrown_def split: sum.splits option.splits)
    have c2: "calls st' = calls st @ answers chunks 0 raws @ [(?q, res)]"
      using c eff(1) fin st2 by simp
    have "replay ai (map fst (answers chunks 0 raws)) (world st) = (answers chunks 0 raws, world st0)"
      using p fin by simp
    from replay_append[OF this replay_single[of ai ?q "world st0" res "world st2", OF eff(2)]]
    have p2: "replay ai (map fst (answers chunks 0 raws @ [(?q, res)])) (world st) =
          (answers chunks 0 raws @ [(?q, res)], world st')"
      using st2 by simp
    have "(\<exists>e. thrown res = Some e \<and> r = Inl e) \<or> (\<exists>t. res = Inr (Response (Some t)) \<and> r = Inr (trim t))"
    proof (cases "thrown res")
      case None
      then obtain t where "res = Inr (Response (Some t))" by (auto simp: thrown_None)
      with r None show ?thesis by simp
    next
      case (Some e)
      with r show ?thesis by simp
    qed
    with ch c2 p2 n s show ?thesis by blast
  qed
qed

section \<open>Joining and trimming\<close>

lemma join_append:
  "xs \<noteq> [] \<Longrightarrow> ys \<noteq> [] \<Longrightarrow> join sep (xs @ ys) = join sep xs @ sep @ join sep ys"
proof (induction sep xs rule: join.induct)
  case (1 sep)
  then show ?case by simp
next
  case (2 sep x)
  then show ?case by (cases ys) simp_all
next
  case (3 sep x y zs)
  then show ?case by simp
qed

lemma join_split:
  assumes "0 < j" "j < length xs"
  shows "join sep xs = join sep (take j xs) @ sep @ join sep (drop j xs)"
proof -
  have "take j xs \<noteq> []" "drop j xs \<noteq> []" using assms by auto
  from join_append[OF this, of sep] show ?thesis by simp
qed

lemma join_Cons: "\<exists>c. join sep (x # xs) = x @ c"
  by (cases xs) simp_all

lemma join_contains: "i < length xs \<Longrightarrow> \<exists>a b. join sep xs = a @ xs ! i @ b"
proof (induction sep xs arbitrary: i rule: join.induct)
  case (1 sep)
  then show ?case by simp
next
  case (2 sep x)
  then have "join sep [x] = [] @ [x] ! i @ []" by simp
  then show ?case by blast
next
  case (3 sep x y zs)
  show ?case
  proof (cases i)
    case 0
    then have "join sep (x # y # zs) = [] @ (x # y # zs) ! i @ (sep @ join sep (y # zs))" by simp
    then show ?thesis by blast
  next
    case (Suc k)
    with 3(2) have "k < length (y # zs)" by simp
    from 3(1)[OF this] obtain a b where "join sep (y # zs) = a @ (y # zs) ! k @ b" by blast
    with Suc have "join sep (x # y # zs) = (x @ sep @ a) @ (x # y # zs) ! i @ b" by simp
    then show ?thesis by blast
  qed
qed

lemma join_order:
  assumes "i < j" "j < length xs"
  shows "\<exists>a b c. join sep xs = a @ xs ! i @ b @ sep @ xs ! j @ c"
proof -
  have i: "i < length (take j xs)" using assms by simp
  from join_contains[OF i, of sep] obtain a b where
    l: "join sep (take j xs) = a @ xs ! i @ b" using assms by auto
  have "drop j xs = xs ! j # drop (Suc j) xs" using assms by (simp add: Cons_nth_drop_Suc)
  with join_Cons[of sep "xs ! j" "drop (Suc j) xs"] obtain c where
    r: "join sep (drop j xs) = xs ! j @ c" by auto
  have "0 < j" using assms by simp
  from join_split[OF this assms(2), of sep] l r
  have "join sep xs = a @ xs ! i @ b @ sep @ xs ! j @ c" by simp
  then show ?thesis by blast
qed

lemma trim_spec:
  "\<exists>a b. x = a @ trim x @ b \<and> (\<forall>c\<in>set a. isWhiteSpace c) \<and> (\<forall>c\<in>set b. isWhiteSpace c) \<and>
     (trim x \<noteq> [] \<longrightarrow> \<not> isWhiteSpace (hd (trim x)) \<and> \<not> isWhiteSpace (last (trim x)))"
proof -
  let ?a = "takeWhile isWhiteSpace x"
  let ?y = "dropWhile isWhiteSpace x"
  let ?d = "dropWhile isWhiteSpace (rev ?y)"
  let ?b = "rev (takeWhile isWhiteSpace (rev ?y))"
  have t: "trim x = rev ?d" by (simp add: trim_def)
  have "rev ?d @ ?b = rev (takeWhile isWhiteSpace (rev ?y) @ ?d)" by (simp only: rev_append)
  also have "\<dots> = rev (rev ?y)" by (simp only: takeWhile_dropWhile_id)
  finally have y: "?y = trim x @ ?b" by (simp only: t rev_rev_ident)
  have x: "x = ?a @ trim x @ ?b" using y by (metis takeWhile_dropWhile_id)
  have a: "\<forall>c\<in>set ?a. isWhiteSpace c" by (auto dest: set_takeWhileD)
  have b: "\<forall>c\<in>set ?b. isWhiteSpace c" by (auto dest: set_takeWhileD)
  have e: "trim x \<noteq> [] \<longrightarrow> \<not> isWhiteSpace (hd (trim x)) \<and> \<not> isWhiteSpace (last (trim x))"
  proof
    assume ne: "trim x \<noteq> []"
    then have d: "?d \<noteq> []" by (simp add: t)
    then have "\<not> isWhiteSpace (hd ?d)" by (rule hd_dropWhile)
    then have l: "\<not> isWhiteSpace (last (trim x))" using d by (simp add: t last_rev)
    have "?y \<noteq> []"
    proof
      assume "?y = []"
      with y have "trim x @ ?b = []" by (simp only:)
      with ne show False by simp
    qed
    then have "\<not> isWhiteSpace (hd ?y)" by (rule hd_dropWhile)
    moreover have "hd ?y = hd (trim x)" using y ne by (metis hd_append2)
    ultimately show "\<not> isWhiteSpace (hd (trim x)) \<and> \<not> isWhiteSpace (last (trim x))"
      using l by simp
  qed
  from x a b e show ?thesis by blast
qed

text \<open>The requests of a run, whatever its outcome.\<close>

lemma run_requests:
  assumes run: "summarizeLongText ai fullText st = Some (r, st')"
    and chunks: "chunkText fullText chunkSize_default = Some chunks"
    and new: "calls st' = calls st @ new"
    and k: "k < length chunks" "k < length new"
  shows "fst (new ! k) = chunkCall chunks k"
proof -
  from summarizeLongText_trace[OF run] chunks obtain raws fin where
    c: "calls st' = calls st @ answers chunks 0 raws @ fin" and
    d: "(length raws < length chunks \<and>
           (\<exists>bad e. fin = [(chunkCall chunks (length raws), bad)] \<and> thrown bad = Some e \<and> r = Inl e)) \<or>
        (length raws = length chunks \<and>
           (\<exists>res. fin = [(Request gemini (finalPrompt (map trim raws)), res)] \<and>
              ((\<exists>e. thrown res = Some e \<and> r = Inl e) \<or>
               (\<exists>t. res = Inr (Response (Some t)) \<and> r = Inr (trim t)))))"
    by auto
  from c new have n: "new = answers chunks 0 raws @ fin" by simp
  show ?thesis
  proof (cases "k < length raws")
    case True
    then show ?thesis using n by (simp add: nth_append length_answers nth_answers)
  next
    case False
    from d show ?thesis
    proof
      assume a: "length raws < length chunks \<and>
           (\<exists>bad e. fin = [(chunkCall chunks (length raws), bad)] \<and> thrown bad = Some e \<and> r = Inl e)"
      then obtain bad where f: "fin = [(chunkCall chunks (length raws), bad)]" by blast
      with n k(2) False have "k = length raws" by (simp add: length_answers)
      with n f show ?thesis by (simp add: nth_append length_answers)
    next
      assume "length raws = length chunks \<and>
           (\<exists>res. fin = [(Request gemini (finalPrompt (map trim raws)), res)] \<and>
              ((\<exists>e. thrown res = Some e \<and> r = Inl e) \<or>
               (\<exists>t. res = Inr (Response (Some t)) \<and> r = Inr (trim t))))"
      with False k(1) show ?thesis by simp
    qed
  qed
qed

section \<open>Runs at concrete inputs\<close>

lemma chunkText_empty: "chunkText [] chunkSize = Some []"
  unfolding chunkText_def by (subst chunkLoop.simps) simp

lemma chunkText_short:
  assumes "0 < length s" "length s \<le> 6000"
  shows "chunkText s chunkSize_default = Some [s]"
proof -
  have "chunkCount 6000 (length s) = Suc (chunkCount 6000 (length s - 6000))"
    using assms(1) by (intro chunkCount_step) simp_all
  then have "chunkCount 6000 (length s) = 1" using assms(2) by (simp add: chunkCount_0)
  with chunkText_closed[of chunkSize_default s] assms(2) show ?thesis
    by (simp add: chunkSize_default_def)
qed

lemma chunkText_6000:
  "chunkText (replicate 6000 c) chunkSize_default = Some [replicate 6000 c]"
  by (rule chunkText_short) simp_all

lemma chunkText_two:
  "chunkText two_chunks chunkSize_default = Some [replicate 6000 0x61, [0x61]]"
proof -
  have "chunkCount 6000 6001 = 2" by (simp add: chunkCount_def)
  moreover have "[0..<2] = [0, Suc 0]" by (simp add: upt_rec)
  moreover have "replicate (Suc 0) c = [c]" for c :: code_unit by simp
  ultimately show ?thesis
    using chunkText_closed[of chunkSize_default "replicate 6001 0x61"]
    by (simp add: chunkSize_default_def two_chunks_def del: replicate_Suc)
qed

lemma chunkText_three:
  "chunkText three_chunks chunkSize_default =
     Some [replicate 6000 0x61, replicate 6000 0x61, [0x61]]"
proof -
  have "chunkCount 6000 12001 = 3" by (simp add: chunkCount_def)
  moreover have "[0..<3] = [0, Suc 0, 2]" by (simp add: upt_rec)
  moreover have "replicate (Suc 0) c = [c]" for c :: code_unit by simp
  ultimately show ?thesis
    using chunkText_closed[of chunkSize_default "replicate 12001 0x61"]
    by (simp add: chunkSize_default_def three_chunks_def del: replicate_Suc)
qed

lemma numberToString_digits:
  "numberToString 0 = lit ''0''" "numberToString 1 = lit ''1''" "numberToString 2 = lit ''2''"
  by (simp_all add: numberToString.simps digit_def lit_def)

lemma trim_padded:
  "trim (padded 0) = lit ''0''" "trim (padded 1) = lit ''1''" "trim (padded 2) = lit ''2''"
  unfolding padded_def numberToString_digits
  by (simp_all add: trim_def lit_def isWhiteSpace_def)

lemma counting_empty:
  "summarizeLongText counting [] started = Some (Inr (lit ''0''), counted_empty)"
  by (simp add: summarizeLongText_def chunkText_empty summarizeLoop.simps generateContent_def
      counting_def started_def counted_empty_def trim_padded)

lemma counting_two:
  "summarizeLongText counting two_chunks started = Some (Inr (lit ''2''), counted_two)"
proof -
  have p: "padded (Suc 0) = padded 1" "padded (Suc (Suc 0)) = padded 2"
    by (simp_all add: numeral_2_eq_2)
  have w: "Suc (Suc (Suc 0)) = 3" by simp
  show ?thesis
    by (simp add: summarizeLongText_def chunkText_two summarizeLoop.simps generateContent_def
        counting_def started_def counted_two_def p w trim_padded del: One_nat_def)
qed

lemma flaky_three:
  "summarizeLongText flaky three_chunks started =
     Some (Inl (ProviderError (lit ''unavailable'')), failed_three)"
proof -
  have w: "Suc (Suc 0) = 2" by simp
  show ?thesis
    by (simp add: summarizeLongText_def chunkText_three summarizeLoop.simps generateContent_def
        flaky_def started_def failed_three_def w trim_padded del: One_nat_def)
qed

section \<open>The shape of a run\<close>

lemma run_shape:
  assumes run: "summarizeLongText ai fullText st = Some (r, st')"
    and chunks: "chunkText fullText chunkSize_default = Some chunks"
    and new: "calls st' = calls st @ new"
  shows "\<exists>raws fin.
           new = answers chunks 0 raws @ fin \<and>
           replay ai (map fst new) (world st) = (new, world st') \<and>
           ((length raws < length chunks \<and>
               (\<exists>bad e. fin = [(chunkCall chunks (length raws), bad)] \<and>
                   thrown bad = Some e \<and> r = Inl e)) \<or>
            (length raws = length chunks \<and>
               (\<exists>res. fin = [(Request gemini (finalPrompt (map trim raws)), res)] \<and>
                  ((\<exists>e. thrown res = Some e \<and> r = Inl e) \<or>
                   (\<exists>t. res = Inr (Response (Some t)) \<and> r = Inr (trim t))))))"
proof -
  from summarizeLongText_trace[OF run] chunks obtain raws fin where
    c: "calls st' = calls st @ answers chunks 0 raws @ fin" and
    p: "replay ai (map fst (answers chunks 0 raws @ fin)) (world st) =
             (answers chunks 0 raws @ fin, world st')" and
    d: "(length raws < length chunks \<and>
           (\<exists>bad e. fin = [(chunkCall chunks (length raws), bad)] \<and> thrown bad = Some e \<and> r = Inl e)) \<or>
        (length raws = length chunks \<and>
           (\<exists>res. fin = [(Request gemini (finalPrompt (map trim raws)), res)] \<and>
              ((\<exists>e. thrown res = Some e \<and> r = Inl e) \<or>
               (\<exists>t. res = Inr (Response (Some t)) \<and> r = Inr (trim t)))))"
    by auto
  from c new have n: "new = answers chunks 0 raws @ fin" by simp
  from n p d show ?thesis by blast
qed

text \<open>A run that returns a summary has answered every chunk call and the synthesis call.\<close>

lemma success_shape:
  assumes run: "summarizeLongText ai fullText st = Some (Inr final, st')"
    and chunks: "chunkText fullText chunkSize_default = Some chunks"
    and new: "calls st' = calls st @ new"
  shows "\<exists>raws raw.
           length raws = length chunks \<and>
           new = answers chunks 0 raws @
                   [(Request gemini (finalPrompt (map trim raws)), Inr (Response (Some raw)))] \<and>
           final = trim raw"
proof -
  from run_shape[OF run chunks new] obtain raws fin where
    n: "new = answers chunks 0 raws @ fin" and
    d: "(length raws < length chunks \<and>
           (\<exists>bad e. fin = [(chunkCall chunks (length raws), bad)] \<and>
              thrown bad = Some e \<and> Inr final = (Inl e :: error + js_string))) \<or>
        (length raws = length chunks \<and>
           (\<exists>res. fin = [(Request gemini (finalPrompt (map trim raws)), res)] \<and>
              ((\<exists>e. thrown res = Some e \<and> Inr final = (Inl e :: error + js_string)) \<or>
               (\<exists>t. res = Inr (Response (Some t)) \<and> Inr final = (Inr (trim t) :: error + js_string)))))"
    by blast
  from d obtain t where "length raws = length chunks"
    "fin = [(Request gemini (finalPrompt (map trim raws)), Inr (Response (Some t)))]" "final = trim t"
    by auto
  with n show ?thesis by blast
qed

text \<open>A run whose log is longer than the list of chunks has issued the synthesis call.\<close>

lemma synthesis_shape:
  assumes run: "summarizeLongText ai fullText st = Some (r, st')"
    and chunks: "chunkText fullText chunkSize_default = Some chunks"
    and new: "calls st' = calls st @ new"
    and reached: "length chunks < length new"
  shows "\<exists>raws res.
           length raws = length chunks \<and>
           new = answers chunks 0 raws @ [(Request gemini (finalPrompt (map trim raws)), res)]"
proof -
  from run_shape[OF run chunks new] obtain raws fin where
    n: "new = answers chunks 0 raws @ fin" and
    d: "(length raws < length chunks \<and>
           (\<exists>bad e. fin = [(chunkCall chunks (length raws), bad)] \<and> thrown bad = Some e \<and> r = Inl e)) \<or>
        (length raws = length chunks \<and>
           (\<exists>res. fin = [(Request gemini (finalPrompt (map trim raws)), res)] \<and>
              ((\<exists>e. thrown res = Some e \<and> r = Inl e) \<or>
               (\<exists>t. res = Inr (Response (Some t)) \<and> r = Inr (trim t)))))"
    by blast
  from d show ?thesis
  proof
    assume "length raws < length chunks \<and>
           (\<exists>bad e. fin = [(chunkCall chunks (length raws), bad)] \<and> thrown bad = Some e \<and> r = Inl e)"
    with n reached show ?thesis by (auto simp: length_answers)
  next
    assume "length raws = length chunks \<and>
           (\<exists>res. fin = [(Request gemini (finalPrompt (map trim raws)), res)] \<and>
              ((\<exists>e. thrown res = Some e \<and> r = Inl e) \<or>
               (\<exists>t. res = Inr (Response (Some t)) \<and> r = Inr (trim t))))"
    with n show ?thesis by blast
  qed
qed

lemma first_request:
  assumes "chunkText fullText chunkSize_default = Some chunks" and "chunks \<noteq> []"
  shows "fst (calls (snd (the (summarizeLongText ai fullText started))) ! 0) = chunkCall chunks 0"
proof -
  obtain r st' where run: "summarizeLongText ai fullText started = Some (r, st')"
    using summarizeLongText_total[of ai fullText started] by auto
  have new: "calls st' = calls started @ calls st'" by (simp add: started_def)
  from run_shape[OF run assms(1) new] assms(2) have "0 < length (calls st')"
    by (auto simp: length_answers)
  from run_requests[OF run assms(1) new _ this] assms(2) run show ?thesis by simp
qed

section \<open>Claims about the pipeline\<close>

text \<open>
  C1, as the code has it. For the empty text \<open>summarizeLongText\<close> does not fail on its
  input: it issues no chunk call and exactly one call, the synthesis call, on a prompt with
  no summary in it, and returns the trimmed answer or what that call throws. The route
  handler passes the joined paragraphs on without a test.
\<close>

theorem empty_input_synthesis:
  "summarizeLongText ai [] st =
     Some (case generateContent ai (Request gemini (finalPrompt [])) st of
             (Inl msg, st2) \<Rightarrow> (Inl (ProviderError msg), st2)
           | (Inr finalResp, st2) \<Rightarrow>
               (case resp_text finalResp of
                  None \<Rightarrow> (Inl TypeError, st2)
                | Some t \<Rightarrow> (Inr (trim t), st2))) \<and>
   calls (snd (generateContent ai (Request gemini (finalPrompt [])) st)) =
     calls st @ [(Request gemini (finalPrompt []), fst (ai (Request gemini (finalPrompt [])) (world st)))] \<and>
   scrapeSummary ai [] st = summarizeLongText ai [] st"
  by (simp add: scrapeSummary_def summarizeLongText_def chunkText_empty summarizeLoop.simps
      generateContent_def Let_def split: prod.splits)

text \<open>
  C1 as stated (the empty text is rejected with an input error and the synthesis call is
  never issued) fails: with a provider that answers, the run on the empty text returns a
  summary, and its log holds the synthesis call made on zero partial summaries.
\<close>

theorem empty_input_counterexample:
  "summarizeLongText counting [] started = Some (Inr (lit ''0''), counted_empty) \<and>
   calls counted_empty = [(Request gemini (finalPrompt []), Inr (Response (Some (padded 0))))] \<and>
   scrapeSummary counting [] started = Some (Inr (lit ''0''), counted_empty)"
  by (simp add: scrapeSummary_def counting_empty) (simp add: counted_empty_def)

text \<open>
  C3, as the code has it. The request for the chunk at index \<open>k\<close> names the model and
  carries a prompt made of the fixed text, the 1-based ordinal \<open>k + 1\<close> in decimal and
  the chunk; the total number of chunks is no part of it. A run that returns a summary
  has issued the call of every chunk. The first two ordinals are rendered \<open>1\<close> and \<open>2\<close>.
\<close>

theorem chunk_prompt_ordinal:
  assumes run: "summarizeLongText ai fullText st = Some (r, st')"
    and chunks: "chunkText fullText chunkSize_default = Some chunks"
    and new: "calls st' = calls st @ new"
  shows "(\<forall>k. k < length chunks \<and> k < length new \<longrightarrow>
            fst (new ! k) =
              Request (lit ''gemini-2.5-flash'')
                (lit ''\<newline>You are summarizing part '' @ numberToString (k + 1) @
                 lit ''.\<newline>Write 5-8 bullet points covering major events, characters, emotions, clues:\<newline>\<newline>'' @
                 chunks ! k @ lit ''\<newline>'')) \<and>
         (\<not> isl r \<longrightarrow> length chunks < length new) \<and>
         numberToString (0 + 1) = lit ''1'' \<and> numberToString (1 + 1) = lit ''2''"
proof -
  have a: "\<forall>k. k < length chunks \<and> k < length new \<longrightarrow>
            fst (new ! k) =
              Request (lit ''gemini-2.5-flash'')
                (lit ''\<newline>You are summarizing part '' @ numberToString (k + 1) @
                 lit ''.\<newline>Write 5-8 bullet points covering major events, characters, emotions, clues:\<newline>\<newline>'' @
                 chunks ! k @ lit ''\<newline>'')"
  proof (intro allI impI)
    fix k assume "k < length chunks \<and> k < length new"
    then have "k < length chunks" "k < length new" by simp_all
    from run_requests[OF run chunks new this]
    show "fst (new ! k) =
              Request (lit ''gemini-2.5-flash'')
                (lit ''\<newline>You are summarizing part '' @ numberToString (k + 1) @
                 lit ''.\<newline>Write 5-8 bullet points covering major events, characters, emotions, clues:\<newline>\<newline>'' @
                 chunks ! k @ lit ''\<newline>'')"
      by (simp add: chunkCall_def chunkPrompt_def gemini_def)
  qed
  have b: "\<not> isl r \<longrightarrow> length chunks < length new"
  proof
    assume "\<not> isl r"
    then obtain final where "r = Inr final" by (cases r) simp_all
    from success_shape[OF run[unfolded this] chunks new]
    show "length chunks < length new" by (auto simp: length_answers)
  qed
  have c: "numberToString (0 + 1) = lit ''1''" using numberToString_digits(2) by simp
  have "(1::nat) + 1 = 2" by simp
  then have d: "numberToString (1 + 1) = lit ''2''" using numberToString_digits(3) by (simp only:)
  from a b c d show ?thesis by blast
qed

theorem chunk_prompt_ordinal_witness:
  "summarizeLongText counting two_chunks started = Some (Inr (lit ''2''), counted_two) \<and>
   chunkText two_chunks chunkSize_default = Some [replicate 6000 0x61, [0x61]] \<and>
   calls counted_two = calls started @ calls counted_two \<and>
   fst (calls counted_two ! 0) =
     Request (lit ''gemini-2.5-flash'')
       (lit ''\<newline>You are summarizing part '' @ lit ''1'' @
        lit ''.\<newline>Write 5-8 bullet points covering major events, characters, emotions, clues:\<newline>\<newline>'' @
        replicate 6000 0x61 @ lit ''\<newline>'') \<and>
   fst (calls counted_two ! 1) =
     Request (lit ''gemini-2.5-flash'')
       (lit ''\<newline>You are summarizing part '' @ lit ''2'' @
        lit ''.\<newline>Write 5-8 bullet points covering major events, characters, emotions, clues:\<newline>\<newline>'' @
        [0x61] @ lit ''\<newline>'') \<and>
   length [replicate 6000 (0x61 :: code_unit), [0x61]] < length (calls counted_two)"
proof -
  have c: "calls counted_two = calls started @ calls counted_two" by (simp add: started_def)
  have l: "length (calls counted_two) = 3" by (simp add: counted_two_def)
  note th = chunk_prompt_ordinal[OF counting_two chunkText_two c]
  from th have a: "\<forall>k. k < length [replicate 6000 (0x61 :: code_unit), [0x61]] \<and>
        k < length (calls counted_two) \<longrightarrow>
        fst (calls counted_two ! k) =
          Request (lit ''gemini-2.5-flash'')
            (lit ''\<newline>You are summarizing part '' @ numberToString (k + 1) @
             lit ''.\<newline>Write 5-8 bullet points covering major events, characters, emotions, clues:\<newline>\<newline>'' @
             [replicate 6000 0x61, [0x61]] ! k @ lit ''\<newline>'')"
    by (rule conjunct1)
  from th have n: "numberToString (0 + 1) = lit ''1''" "numberToString (1 + 1) = lit ''2''"
    by simp_all
  from a[rule_format, of 0] l n(1) have k0: "fst (calls counted_two ! 0) =
     Request (lit ''gemini-2.5-flash'')
       (lit ''\<newline>You are summarizing part '' @ lit ''1'' @
        lit ''.\<newline>Write 5-8 bullet points covering major events, characters, emotions, clues:\<newline>\<newline>'' @
        replicate 6000 0x61 @ lit ''\<newline>'')"
    by simp
  from a[rule_format, of 1] l n(2) have k1: "fst (calls counted_two ! 1) =
     Request (lit ''gemini-2.5-flash'')
       (lit ''\<newline>You are summarizing part '' @ lit ''2'' @
        lit ''.\<newline>Write 5-8 bullet points covering major events, characters, emotions, clues:\<newline>\<newline>'' @
        [0x61] @ lit ''\<newline>'')"
    by simp
  from counting_two chunkText_two c k0 k1 l show ?thesis by simp
qed

text \<open>
  C3 as stated (the total chunk count is embedded in the prompt) fails: a text of 6000
  code units is one chunk, a text of 6001 code units is two chunks, and the first request
  of both runs is the same.
\<close>

theorem total_not_in_prompt_counterexample:
  "length (the (chunkText (replicate 6000 0x61) chunkSize_default)) = 1 \<and>
   length (the (chunkText two_chunks chunkSize_default)) = 2 \<and>
   fst (calls (snd (the (summarizeLongText counting (replicate 6000 0x61) started))) ! 0) =
   fst (calls (snd (the (summarizeLongText counting two_chunks started))) ! 0)"
proof -
  have "fst (calls (snd (the (summarizeLongText counting (replicate 6000 0x61) started))) ! 0) =
          chunkCall [replicate 6000 0x61] 0"
    by (rule first_request[OF chunkText_6000]) simp
  moreover have "fst (calls (snd (the (summarizeLongText counting two_chunks started))) ! 0) =
          chunkCall [replicate 6000 0x61, [0x61]] 0"
    by (rule first_request[OF chunkText_two]) simp
  moreover have "chunkCall [replicate 6000 0x61] 0 = chunkCall [replicate 6000 0x61, [0x61]] 0"
    by (simp add: chunkCall_def)
  ultimately show ?thesis by (simp add: chunkText_6000 chunkText_two)
qed

text \<open>
  C4. Fail-fast: when the call for the chunk at index \<open>k\<close> fails (the provider rejects
  it, or its response has no text), that call is the last of the run: no later chunk is
  summarized, no synthesis call is issued, and the run ends with that failure.
\<close>

theorem fail_fast:
  assumes run: "summarizeLongText ai fullText st = Some (r, st')"
    and chunks: "chunkText fullText chunkSize_default = Some chunks"
    and new: "calls st' = calls st @ new"
    and k: "k < length chunks" "k < length new"
    and fail: "(\<exists>msg. snd (new ! k) = Inl msg \<and> e = ProviderError msg) \<or>
               (snd (new ! k) = Inr (Response None) \<and> e = TypeError)"
  shows "length new = k + 1 \<and> r = Inl e \<and>
         (\<forall>j\<le>k. fst (new ! j) = Request gemini (chunkPrompt j (chunks ! j)))"
proof -
  from run_shape[OF run chunks new] obtain raws fin where
    n: "new = answers chunks 0 raws @ fin" and
    d: "(length raws < length chunks \<and>
           (\<exists>bad e. fin = [(chunkCall chunks (length raws), bad)] \<and> thrown bad = Some e \<and> r = Inl e)) \<or>
        (length raws = length chunks \<and>
           (\<exists>res. fin = [(Request gemini (finalPrompt (map trim raws)), res)] \<and>
              ((\<exists>e. thrown res = Some e \<and> r = Inl e) \<or>
               (\<exists>t. res = Inr (Response (Some t)) \<and> r = Inr (trim t)))))"
    by blast
  from fail have th: "thrown (snd (new ! k)) = Some e"
    by (auto simp: thrown_def)
  have ge: "\<not> k < length raws"
  proof
    assume "k < length raws"
    then have "snd (new ! k) = Inr (Response (Some (raws ! k)))"
      using n by (simp add: nth_append length_answers nth_answers)
    with th show False by (simp add: thrown_def)
  qed
  from d have "length new = k + 1 \<and> r = Inl e"
  proof
    assume "length raws < length chunks \<and>
           (\<exists>bad e. fin = [(chunkCall chunks (length raws), bad)] \<and> thrown bad = Some e \<and> r = Inl e)"
    then obtain bad e' where f: "fin = [(chunkCall chunks (length raws), bad)]"
      and t: "thrown bad = Some e'" and r: "r = Inl e'" by blast
    from n f k(2) ge have kk: "k = length raws" by (simp add: length_answers)
    with n f have "snd (new ! k) = bad" by (simp add: nth_append length_answers)
    with t th r have "r = Inl e" by simp
    moreover have "length new = k + 1" using n f kk by (simp add: length_answers)
    ultimately show ?thesis by simp
  next
    assume "length raws = length chunks \<and>
           (\<exists>res. fin = [(Request gemini (finalPrompt (map trim raws)), res)] \<and>
              ((\<exists>e. thrown res = Some e \<and> r = Inl e) \<or>
               (\<exists>t. res = Inr (Response (Some t)) \<and> r = Inr (trim t))))"
    with ge k(1) show ?thesis by simp
  qed
  moreover have "\<forall>j\<le>k. fst (new ! j) = Request gemini (chunkPrompt j (chunks ! j))"
  proof (intro allI impI)
    fix j assume "j \<le> k"
    with k have "j < length chunks" "j < length new" by simp_all
    from run_requests[OF run chunks new this]
    show "fst (new ! j) = Request gemini (chunkPrompt j (chunks ! j))"
      by (simp add: chunkCall_def)
  qed
  ultimately show ?thesis by blast
qed

theorem fail_fast_witness:
  "summarizeLongText flaky three_chunks started =
     Some (Inl (ProviderError (lit ''unavailable'')), failed_three) \<and>
   chunkText three_chunks chunkSize_default =
     Some [replicate 6000 0x61, replicate 6000 0x61, [0x61]] \<and>
   calls failed_three = calls started @ calls failed_three \<and>
   1 < length [replicate 6000 (0x61 :: code_unit), replicate 6000 0x61, [0x61]] \<and>
   1 < length (calls failed_three) \<and>
   snd (calls failed_three ! 1) = Inl (lit ''unavailable'') \<and>
   length (calls failed_three) = 1 + 1 \<and>
   fst (calls failed_three ! 0) = Request gemini (chunkPrompt 0 (replicate 6000 0x61)) \<and>
   fst (calls failed_three ! 1) = Request gemini (chunkPrompt 1 (replicate 6000 0x61))"
proof -
  have c: "calls failed_three = calls started @ calls failed_three" by (simp add: started_def)
  have k: "1 < length [replicate 6000 (0x61 :: code_unit), replicate 6000 0x61, [0x61]]"
    "1 < length (calls failed_three)"
    by (simp_all add: failed_three_def)
  have s: "snd (calls failed_three ! 1) = Inl (lit ''unavailable'')"
    by (simp add: failed_three_def)
  then have f: "(\<exists>msg. snd (calls failed_three ! 1) = Inl msg \<and>
                  ProviderError (lit ''unavailable'') = ProviderError msg) \<or>
             (snd (calls failed_three ! 1) = Inr (Response None) \<and>
                  ProviderError (lit ''unavailable'') = TypeError)"
    by simp
  note th = fail_fast[OF flaky_three chunkText_three c k f]
  from th have r: "\<forall>j\<le>1. fst (calls failed_three ! j) =
      Request gemini (chunkPrompt j ([replicate 6000 0x61, replicate 6000 0x61, [0x61]] ! j))"
    by simp
  from r[rule_format, of 0] have r0:
    "fst (calls failed_three ! 0) = Request gemini (chunkPrompt 0 (replicate 6000 0x61))" by simp
  from r[rule_format, of 1] have r1:
    "fst (calls failed_three ! 1) = Request gemini (chunkPrompt 1 (replicate 6000 0x61))" by simp
  from th flaky_three chunkText_three c k s r0 r1 show ?thesis by simp
qed

text \<open>
  C5. Order preservation: when the synthesis call is issued, its prompt holds the partial
  summaries of the chunks \<open>0, 1, \<dots>\<close> in index order, joined by one line break, so the
  summary of chunk \<open>i\<close> stands before the summary of chunk \<open>j\<close> whenever \<open>i < j\<close>.
\<close>

theorem order_preserved:
  assumes run: "summarizeLongText ai fullText st = Some (r, st')"
    and chunks: "chunkText fullText chunkSize_default = Some chunks"
    and new: "calls st' = calls st @ new"
    and reached: "length chunks < length new"
  shows "\<exists>summaries.
           length summaries = length chunks \<and>
           (\<forall>k<length chunks. \<exists>t.
               new ! k = (Request gemini (chunkPrompt k (chunks ! k)), Inr (Response (Some t))) \<and>
               summaries ! k = trim t) \<and>
           contents (fst (new ! length chunks)) =
             lit ''\<newline>Combine all summaries into a final chapter summary:\<newline>\<newline>'' @
             join (lit ''\<newline>'') summaries @ lit ''\<newline>    '' \<and>
           (\<forall>j. 0 < j \<and> j < length chunks \<longrightarrow>
               join (lit ''\<newline>'') summaries =
                 join (lit ''\<newline>'') (take j summaries) @ lit ''\<newline>'' @
                 join (lit ''\<newline>'') (drop j summaries)) \<and>
           (\<forall>i j. i < j \<and> j < length chunks \<longrightarrow>
               (\<exists>a b c. join (lit ''\<newline>'') summaries =
                  a @ summaries ! i @ b @ lit ''\<newline>'' @ summaries ! j @ c))"
proof -
  from synthesis_shape[OF run chunks new reached] obtain raws res where
    l: "length raws = length chunks" and
    n: "new = answers chunks 0 raws @ [(Request gemini (finalPrompt (map trim raws)), res)]"
    by blast
  let ?s = "map trim raws"
  have a: "length ?s = length chunks" using l by simp
  have b: "\<forall>k<length chunks. \<exists>t.
               new ! k = (Request gemini (chunkPrompt k (chunks ! k)), Inr (Response (Some t))) \<and>
               ?s ! k = trim t"
    using n l by (simp add: nth_append length_answers nth_answers chunkCall_def)
  have "fst (new ! length chunks) = Request gemini (finalPrompt ?s)"
    using n l by (simp add: nth_append length_answers)
  then have c: "contents (fst (new ! length chunks)) =
             lit ''\<newline>Combine all summaries into a final chapter summary:\<newline>\<newline>'' @
             join (lit ''\<newline>'') ?s @ lit ''\<newline>    ''"
    by (simp add: finalPrompt_def)
  have d: "\<forall>j. 0 < j \<and> j < length chunks \<longrightarrow>
               join (lit ''\<newline>'') ?s =
                 join (lit ''\<newline>'') (take j ?s) @ lit ''\<newline>'' @ join (lit ''\<newline>'') (drop j ?s)"
    using a by (auto intro: join_split)
  have e: "\<forall>i j. i < j \<and> j < length chunks \<longrightarrow>
               (\<exists>a b c. join (lit ''\<newline>'') ?s = a @ ?s ! i @ b @ lit ''\<newline>'' @ ?s ! j @ c)"
  proof (intro allI impI)
    fix i j assume ij: "i < j \<and> j < length chunks"
    then have "i < j" "j < length ?s" using a by simp_all
    from join_order[OF this, of "lit ''\<newline>''"]
    show "\<exists>a b c. join (lit ''\<newline>'') ?s = a @ ?s ! i @ b @ lit ''\<newline>'' @ ?s ! j @ c" .
  qed
  from a b c d e show ?thesis by blast
qed

theorem order_preserved_witness:
  "summarizeLongText counting two_chunks started = Some (Inr (lit ''2''), counted_two) \<and>
   chunkText two_chunks chunkSize_default = Some [replicate 6000 0x61, [0x61]] \<and>
   calls counted_two = calls started @ calls counted_two \<and>
   length [replicate 6000 (0x61 :: code_unit), [0x61]] < length (calls counted_two) \<and>
   (\<exists>summaries.
       length summaries = 2 \<and>
       (\<exists>t. calls counted_two ! 0 =
               (Request gemini (chunkPrompt 0 (replicate 6000 0x61)), Inr (Response (Some t))) \<and>
            summaries ! 0 = trim t) \<and>
       (\<exists>t. calls counted_two ! 1 =
               (Request gemini (chunkPrompt 1 [0x61]), Inr (Response (Some t))) \<and>
            summaries ! 1 = trim t) \<and>
       contents (fst (calls counted_two ! 2)) =
         lit ''\<newline>Combine all summaries into a final chapter summary:\<newline>\<newline>'' @
         join (lit ''\<newline>'') summaries @ lit ''\<newline>    '' \<and>
       join (lit ''\<newline>'') summaries =
         join (lit ''\<newline>'') (take 1 summaries) @ lit ''\<newline>'' @
         join (lit ''\<newline>'') (drop 1 summaries) \<and>
       (\<exists>a b c. join (lit ''\<newline>'') summaries =
          a @ summaries ! 0 @ b @ lit ''\<newline>'' @ summaries ! 1 @ c))"
proof -
  have c: "calls counted_two = calls started @ calls counted_two" by (simp add: started_def)
  have l: "length [replicate 6000 (0x61 :: code_unit), [0x61]] < length (calls counted_two)"
    by (simp add: counted_two_def)
  from order_preserved[OF counting_two chunkText_two c l] obtain summaries where
    s: "length summaries = length [replicate 6000 (0x61 :: code_unit), [0x61]]" and
    k: "\<forall>k<length [replicate 6000 (0x61 :: code_unit), [0x61]]. \<exists>t.
          calls counted_two ! k =
            (Request gemini (chunkPrompt k ([replicate 6000 0x61, [0x61]] ! k)),
             Inr (Response (Some t))) \<and>
          summaries ! k = trim t" and
    p: "contents (fst (calls counted_two ! length [replicate 6000 (0x61 :: code_unit), [0x61]])) =
         lit ''\<newline>Combine all summaries into a final chapter summary:\<newline>\<newline>'' @
         join (lit ''\<newline>'') summaries @ lit ''\<newline>    ''" and
    j: "\<forall>j. 0 < j \<and> j < length [replicate 6000 (0x61 :: code_unit), [0x61]] \<longrightarrow>
          join (lit ''\<newline>'') summaries =
            join (lit ''\<newline>'') (take j summaries) @ lit ''\<newline>'' @
            join (lit ''\<newline>'') (drop j summaries)" and
    o: "\<forall>i j. i < j \<and> j < length [replicate 6000 (0x61 :: code_unit), [0x61]] \<longrightarrow>
          (\<exists>a b c. join (lit ''\<newline>'') summaries =
             a @ summaries ! i @ b @ lit ''\<newline>'' @ summaries ! j @ c)"
    by blast
  from s have s2: "length summaries = 2" by simp
  from k[rule_format, of 0] have k0: "\<exists>t. calls counted_two ! 0 =
               (Request gemini (chunkPrompt 0 (replicate 6000 0x61)), Inr (Response (Some t))) \<and>
            summaries ! 0 = trim t" by simp
  from k[rule_format, of 1] have k1: "\<exists>t. calls counted_two ! 1 =
               (Request gemini (chunkPrompt 1 [0x61]), Inr (Response (Some t))) \<and>
            summaries ! 1 = trim t" by simp
  from p have p2: "contents (fst (calls counted_two ! 2)) =
         lit ''\<newline>Combine all summaries into a final chapter summary:\<newline>\<newline>'' @
         join (lit ''\<newline>'') summaries @ lit ''\<newline>    ''"
    by (simp add: numeral_2_eq_2)
  from j[rule_format, of 1] have j1: "join (lit ''\<newline>'') summaries =
         join (lit ''\<newline>'') (take 1 summaries) @ lit ''\<newline>'' @
         join (lit ''\<newline>'') (drop 1 summaries)" by simp
  from o[rule_format, of 0 1] have o1: "\<exists>a b c. join (lit ''\<newline>'') summaries =
          a @ summaries ! 0 @ b @ lit ''\<newline>'' @ summaries ! 1 @ c" by simp
  from s2 k0 k1 p2 j1 o1 have "\<exists>summaries.
       length summaries = 2 \<and>
       (\<exists>t. calls counted_two ! 0 =
               (Request gemini (chunkPrompt 0 (replicate 6000 0x61)), Inr (Response (Some t))) \<and>
            summaries ! 0 = trim t) \<and>
       (\<exists>t. calls counted_two ! 1 =
               (Request gemini (chunkPrompt 1 [0x61]), Inr (Response (Some t))) \<and>
            summaries ! 1 = trim t) \<and>
       contents (fst (calls counted_two ! 2)) =
         lit ''\<newline>Combine all summaries into a final chapter summary:\<newline>\<newline>'' @
         join (lit ''\<newline>'') summaries @ lit ''\<newline>    '' \<and>
       join (lit ''\<newline>'') summaries =
         join (lit ''\<newline>'') (take 1 summaries) @ lit ''\<newline>'' @
         join (lit ''\<newline>'') (drop 1 summaries) \<and>
       (\<exists>a b c. join (lit ''\<newline>'') summaries =
          a @ summaries ! 0 @ b @ lit ''\<newline>'' @ summaries ! 1 @ c)"
    by blast
  with counting_two chunkText_two c l show ?thesis by blast
qed

text \<open>
  C8. Call count and order: a run that returns a summary has issued \<open>n + 1\<close> calls for
  \<open>n\<close> chunks: the call of chunk \<open>0\<close>, of chunk \<open>1\<close>, \<dots>, then the synthesis
  call, each on the provider state left by the call before it.
\<close>

theorem pipeline_calls:
  assumes run: "summarizeLongText ai fullText st = Some (Inr final, st')"
    and chunks: "chunkText fullText chunkSize_default = Some chunks"
    and new: "calls st' = calls st @ new"
  shows "length new = length chunks + 1 \<and>
         (\<forall>k<length chunks. fst (new ! k) = Request gemini (chunkPrompt k (chunks ! k))) \<and>
         (\<exists>summaries. length summaries = length chunks \<and>
             fst (new ! length chunks) = Request gemini (finalPrompt summaries)) \<and>
         replay ai (map fst new) (world st) = (new, world st')"
proof -
  from success_shape[OF run chunks new] obtain raws raw where
    l: "length raws = length chunks" and
    n: "new = answers chunks 0 raws @
          [(Request gemini (finalPrompt (map trim raws)), Inr (Response (Some raw)))]"
    by blast
  have a: "length new = length chunks + 1" using n l by (simp add: length_answers)
  have b: "\<forall>k<length chunks. fst (new ! k) = Request gemini (chunkPrompt k (chunks ! k))"
    using n l by (simp add: nth_append length_answers nth_answers chunkCall_def)
  have "fst (new ! length chunks) = Request gemini (finalPrompt (map trim raws))"
    using n l by (simp add: nth_append length_answers)
  then have c: "\<exists>summaries. length summaries = length chunks \<and>
             fst (new ! length chunks) = Request gemini (finalPrompt summaries)"
    using l by (intro exI[of _ "map trim raws"]) simp
  from run_shape[OF run chunks new]
  have d: "replay ai (map fst new) (world st) = (new, world st')" by blast
  from a b c d show ?thesis by blast
qed

theorem pipeline_calls_witness:
  "summarizeLongText counting two_chunks started = Some (Inr (lit ''2''), counted_two) \<and>
   chunkText two_chunks chunkSize_default = Some [replicate 6000 0x61, [0x61]] \<and>
   calls counted_two = calls started @ calls counted_two \<and>
   length (calls counted_two) = 2 + 1 \<and>
   fst (calls counted_two ! 0) = Request gemini (chunkPrompt 0 (replicate 6000 0x61)) \<and>
   fst (calls counted_two ! 1) = Request gemini (chunkPrompt 1 [0x61]) \<and>
   (\<exists>summaries. length summaries = 2 \<and>
       fst (calls counted_two ! 2) = Request gemini (finalPrompt summaries)) \<and>
   replay counting (map fst (calls counted_two)) (world started) =
     (calls counted_two, world counted_two)"
proof -
  have c: "calls counted_two = calls started @ calls counted_two" by (simp add: started_def)
  note th = pipeline_calls[OF counting_two chunkText_two c]
  from th have n: "length (calls counted_two) = 2 + 1" by simp
  from th have r: "\<forall>k<length [replicate 6000 (0x61 :: code_unit), [0x61]].
      fst (calls counted_two ! k) =
        Request gemini (chunkPrompt k ([replicate 6000 0x61, [0x61]] ! k))"
    by (elim conjE)
  from r[rule_format, of 0] have r0:
    "fst (calls counted_two ! 0) = Request gemini (chunkPrompt 0 (replicate 6000 0x61))" by simp
  from r[rule_format, of 1] have r1:
    "fst (calls counted_two ! 1) = Request gemini (chunkPrompt 1 [0x61])" by simp
  from th have s: "\<exists>summaries. length summaries = 2 \<and>
       fst (calls counted_two ! 2) = Request gemini (finalPrompt summaries)"
    by (simp add: numeral_2_eq_2)
  from th have p: "replay counting (map fst (calls counted_two)) (world started) =
     (calls counted_two, world counted_two)" by (elim conjE)
  from counting_two chunkText_two c n r0 r1 s p show ?thesis by blast
qed

text \<open>
  C9. Output normalization: every partial summary in the synthesis prompt is the text of
  the response for its chunk, trimmed, and the summary returned is the text of the
  synthesis response, trimmed. Trimming only removes white space from both ends.
\<close>

theorem outputs_trimmed:
  assumes run: "summarizeLongText ai fullText st = Some (Inr final, st')"
    and chunks: "chunkText fullText chunkSize_default = Some chunks"
    and new: "calls st' = calls st @ new"
  shows "\<exists>raws raw.
           length raws = length chunks \<and>
           map snd new = map (\<lambda>t. Inr (Response (Some t))) (raws @ [raw]) \<and>
           contents (fst (new ! length chunks)) = finalPrompt (map trim raws) \<and>
           final = trim raw \<and>
           (\<forall>x\<in>set (raw # raws). \<exists>a b.
               x = a @ trim x @ b \<and>
               (\<forall>c\<in>set a. isWhiteSpace c) \<and> (\<forall>c\<in>set b. isWhiteSpace c) \<and>
               (trim x \<noteq> [] \<longrightarrow> \<not> isWhiteSpace (hd (trim x)) \<and> \<not> isWhiteSpace (last (trim x))))"
proof -
  from success_shape[OF run chunks new] obtain raws raw where
    l: "length raws = length chunks" and
    n: "new = answers chunks 0 raws @
          [(Request gemini (finalPrompt (map trim raws)), Inr (Response (Some raw)))]" and
    f: "final = trim raw"
    by blast
  have s: "map snd (answers chunks i ts) = map (\<lambda>t. Inr (Response (Some t))) ts" for i ts
    by (induction ts arbitrary: i) simp_all
  have a: "map snd new = map (\<lambda>t. Inr (Response (Some t))) (raws @ [raw])"
    using n by (simp add: s)
  have b: "contents (fst (new ! length chunks)) = finalPrompt (map trim raws)"
    using n l by (simp add: nth_append length_answers)
  have c: "\<forall>x\<in>set (raw # raws). \<exists>a b.
               x = a @ trim x @ b \<and>
               (\<forall>c\<in>set a. isWhiteSpace c) \<and> (\<forall>c\<in>set b. isWhiteSpace c) \<and>
               (trim x \<noteq> [] \<longrightarrow> \<not> isWhiteSpace (hd (trim x)) \<and> \<not> isWhiteSpace (last (trim x)))"
    using trim_spec by blast
  from l a b f c show ?thesis by blast
qed

theorem outputs_trimmed_witness:
  "summarizeLongText counting two_chunks started = Some (Inr (lit ''2''), counted_two) \<and>
   chunkText two_chunks chunkSize_default = Some [replicate 6000 0x61, [0x61]] \<and>
   calls counted_two = calls started @ calls counted_two \<and>
   (\<exists>raws raw.
       length raws = 2 \<and>
       map snd (calls counted_two) = map (\<lambda>t. Inr (Response (Some t))) (raws @ [raw]) \<and>
       contents (fst (calls counted_two ! 2)) = finalPrompt (map trim raws) \<and>
       lit ''2'' = trim raw)"
proof -
  have c: "calls counted_two = calls started @ calls counted_two" by (simp add: started_def)
  from outputs_trimmed[OF counting_two chunkText_two c] obtain raws raw where
    "length raws = length [replicate 6000 (0x61 :: code_unit), [0x61]]"
    "map snd (calls counted_two) = map (\<lambda>t. Inr (Response (Some t))) (raws @ [raw])"
    "contents (fst (calls counted_two ! length [replicate 6000 (0x61 :: code_unit), [0x61]])) =
       finalPrompt (map trim raws)"
    "lit ''2'' = trim raw"
    by blast
  then have "\<exists>raws raw.
       length raws = 2 \<and>
       map snd (calls counted_two) = map (\<lambda>t. Inr (Response (Some t))) (raws @ [raw]) \<and>
       contents (fst (calls counted_two ! 2)) = finalPrompt (map trim raws) \<and>
       lit ''2'' = trim raw"
    by (auto simp: numeral_2_eq_2)
  with counting_two chunkText_two c show ?thesis by blast
qed

end
